theory Spec2Isabelle
  imports Main "HOL-Library.Multiset"
begin

section \<open>JavaScript values used by the plugin\<close>

text \<open>
  The plugin keeps its bookkeeping in plain object literals (\<^verbatim>\<open>{}\<close>) used as
  dictionaries from strings to arrays. Such an object is modelled by the list of its own
  properties in creation order. Three facts of the language are written out, because the
  code depends on them:
  \<^item> a property read that finds no own property continues in \<^verbatim>\<open>Object.prototype\<close>, so
    reading \<^verbatim>\<open>o["constructor"]\<close> on an empty literal yields a function, which is truthy
    and has neither \<^verbatim>\<open>push\<close> nor \<^verbatim>\<open>includes\<close>;
  \<^item> \<^verbatim>\<open>for ... in\<close> and \<^verbatim>\<open>Object.keys\<close> list the array-index keys first, in ascending
    numeric order, then the other string keys in creation order;
  \<^item> the empty string and \<^verbatim>\<open>undefined\<close> are falsy, every other string is truthy.

  An assignment \<^verbatim>\<open>o[k] = v\<close> creates the own property, last in creation order, or
  overwrites it in place. (The one key for which the language does something else,
  \<^verbatim>\<open>__proto__\<close>, is never assigned: the code assigns a bundle or file key only after
  reading it as falsy, and a path handed to a loader is absolute.)
\<close>

datatype error = TypeError | Thrown string

type_synonym 'v jsobj = "(string \<times> 'v) list"

definition objectPrototypeKeys :: "string list" where
  "objectPrototypeKeys =
     [''constructor'', ''__defineGetter__'', ''__defineSetter__'', ''hasOwnProperty'',
      ''__lookupGetter__'', ''__lookupSetter__'', ''isPrototypeOf'',
      ''propertyIsEnumerable'', ''toString'', ''valueOf'', ''__proto__'',
      ''toLocaleString'']"

datatype 'v jsval = Undefined | Own 'v | Inherited

definition js_get :: "'v jsobj \<Rightarrow> string \<Rightarrow> 'v jsval" where
  "js_get ob k =
     (case map_of ob k of
        Some v \<Rightarrow> Own v
      | None \<Rightarrow> if k \<in> set objectPrototypeKeys then Inherited else Undefined)"

fun js_set :: "'v jsobj \<Rightarrow> string \<Rightarrow> 'v \<Rightarrow> 'v jsobj" where
  "js_set [] k v = [(k, v)]"
| "js_set (p # ps) k v = (if fst p = k then (k, v) # ps else p # js_set ps k v)"

definition isDigit :: "char \<Rightarrow> bool" where
  "isDigit c = (c \<in> set ''0123456789'')"

definition decimalValue :: "string \<Rightarrow> nat" where
  "decimalValue s = foldl (\<lambda>a c. 10 * a + (of_char c - 48)) 0 s"

definition isArrayIndex :: "string \<Rightarrow> bool" where
  "isArrayIndex s =
     (s \<noteq> [] \<and> list_all isDigit s \<and> (s = ''0'' \<or> hd s \<noteq> CHR ''0'')
      \<and> decimalValue s < 4294967295)"

definition ownEntries :: "'v jsobj \<Rightarrow> (string \<times> 'v) list" where
  "ownEntries ob =
     sort_key (\<lambda>p. decimalValue (fst p)) (filter (\<lambda>p. isArrayIndex (fst p)) ob)
     @ filter (\<lambda>p. \<not> isArrayIndex (fst p)) ob"

definition ownKeys :: "'v jsobj \<Rightarrow> string list" where
  "ownKeys ob = map fst (ownEntries ob)"

fun str_includes :: "string \<Rightarrow> string \<Rightarrow> bool" where
  "str_includes [] t = (t = [])"
| "str_includes (c # s) t = (t = take (length t) (c # s) \<or> str_includes s t)"

fun toString :: "nat \<Rightarrow> string" where
  "toString n =
     (if n < 10 then [''0123456789'' ! n]
      else toString (n div 10) @ [''0123456789'' ! (n mod 10)])"

fun truthy :: "string option \<Rightarrow> string option" where
  "truthy None = None"
| "truthy (Some s) = (if s = [] then None else Some s)"

section \<open>Chunks and modules of the bundler\<close>

datatype jsId = NumId nat | StrId string

fun idToString :: "jsId \<Rightarrow> string" where
  "idToString (NumId n) = toString n"
| "idToString (StrId s) = s"

record chunk =
  name :: "string option"
  chunkId :: "jsId option"
  renderedHash :: "string option"

record jsmodule =
  resource :: "string option"

definition chunkName :: "chunk \<Rightarrow> string" where
  "chunkName c =
     (case truthy (name c) of
        Some n \<Rightarrow> n
      | None \<Rightarrow>
          (case truthy (map_option idToString (chunkId c)) of
             Some i \<Rightarrow> i
           | None \<Rightarrow>
               ''chunk-'' @ (case renderedHash c of None \<Rightarrow> ''undefined'' | Some h \<Rightarrow> h)))"

definition isNodeModule :: "string \<Rightarrow> string \<Rightarrow> bool" where
  "isNodeModule sep filePath = str_includes filePath (sep @ ''node_modules'' @ sep)"

section \<open>The plugin instance\<close>

text \<open>
  The fields of \<^verbatim>\<open>StylexPlugin\<close>. \<^verbatim>\<open>stylexRules\<close> is a class field initialised to \<^verbatim>\<open>{}\<close>;
  \<^verbatim>\<open>fileToBundlesMap\<close> is not declared by the class and stays \<^verbatim>\<open>undefined\<close> (\<open>None\<close>)
  until the \<^verbatim>\<open>afterOptimizeChunks\<close> handler assigns it. The items handed to the
  external compiler are opaque here.
\<close>

record babelConfig =
  plugins :: "string list"
  presets :: "string list"
  babelrc :: bool

record babelPluginOptions =
  bp_dev :: bool
  unstable_moduleResolution :: string
  importSources :: "string list"
  options :: "string list"

record 'r stylexPlugin =
  dev :: bool
  filename :: "string option"
  babelConfig :: babelConfig
  stylexImports :: "string list"
  babelPlugin :: babelPluginOptions
  useCSSLayers :: bool
  stylexRules :: "'r list jsobj"
  filesInLastRun :: "string option list option"
  fileToBundlesMap :: "string list jsobj option"

section \<open>The bundle-membership tracker\<close>

text \<open>
  The body of the innermost \<^verbatim>\<open>if (!isNodeModule)\<close> block of the
  \<^verbatim>\<open>afterOptimizeChunks\<close> handler: create the file's array when the read is falsy, then
  push the chunk name unless \<^verbatim>\<open>includes\<close> finds it. When the read finds an inherited
  property, nothing is created and the call of \<^verbatim>\<open>includes\<close> throws.
\<close>

definition addBundle ::
  "string list jsobj \<Rightarrow> string \<Rightarrow> string \<Rightarrow> string list jsobj \<times> error option" where
  "addBundle m filePath cn =
     (let m1 = (case js_get m filePath of Undefined \<Rightarrow> js_set m filePath [] | _ \<Rightarrow> m)
      in case js_get m1 filePath of
           Own bs \<Rightarrow> (if cn \<in> set bs then m1 else js_set m1 filePath (bs @ [cn]), None)
         | _ \<Rightarrow> (m1, Some TypeError))"

fun moduleLoop ::
  "string \<Rightarrow> string \<Rightarrow> string list jsobj \<Rightarrow> jsmodule list
   \<Rightarrow> string list jsobj \<times> error option" where
  "moduleLoop sep cn m [] = (m, None)"
| "moduleLoop sep cn m (md # mds) =
     (case truthy (resource md) of
        None \<Rightarrow> moduleLoop sep cn m mds
      | Some filePath \<Rightarrow>
          if isNodeModule sep filePath then moduleLoop sep cn m mds
          else (case addBundle m filePath cn of
                  (m', None) \<Rightarrow> moduleLoop sep cn m' mds
                | (m', Some e) \<Rightarrow> (m', Some e)))"

fun chunkLoop ::
  "string \<Rightarrow> (chunk \<Rightarrow> jsmodule list) \<Rightarrow> string list jsobj \<Rightarrow> chunk list
   \<Rightarrow> string list jsobj \<times> error option" where
  "chunkLoop sep getChunkModules m [] = (m, None)"
| "chunkLoop sep getChunkModules m (c # cs) =
     (if chunkName c = [] then chunkLoop sep getChunkModules m cs
      else (case moduleLoop sep (chunkName c) m (getChunkModules c) of
              (m', None) \<Rightarrow> chunkLoop sep getChunkModules m' cs
            | (m', Some e) \<Rightarrow> (m', Some e)))"

text \<open>
  The handler itself: \<^verbatim>\<open>path.sep\<close> and the chunk graph of the compilation are
  parameters. An exception leaves the handler with the map as far as it was built.
\<close>

definition afterOptimizeChunks ::
  "string \<Rightarrow> (chunk \<Rightarrow> jsmodule list) \<Rightarrow> 'r stylexPlugin \<Rightarrow> chunk list
   \<Rightarrow> 'r stylexPlugin \<times> error option" where
  "afterOptimizeChunks sep getChunkModules this chunks =
     (case chunkLoop sep getChunkModules [] chunks of
        (m, e) \<Rightarrow> (this\<lparr>fileToBundlesMap := Some m\<rparr>, e))"

section \<open>The rule aggregator\<close>

text \<open>
  \<^verbatim>\<open>bundleToRules[bundle].push(...rules)\<close>, after the array was created when the read was
  falsy. A bundle named like a property of \<^verbatim>\<open>Object.prototype\<close> reads as truthy, no array
  is created, and \<^verbatim>\<open>push\<close> is not a function of what was read.
\<close>

definition pushRules :: "'r list jsobj \<Rightarrow> string \<Rightarrow> 'r list \<Rightarrow> error + 'r list jsobj" where
  "pushRules bundleToRules bundle rules =
     (let b1 = (case js_get bundleToRules bundle of
                  Undefined \<Rightarrow> js_set bundleToRules bundle []
                | _ \<Rightarrow> bundleToRules)
      in case js_get b1 bundle of
           Own rs \<Rightarrow> Inr (js_set b1 bundle (rs @ rules))
         | _ \<Rightarrow> Inl TypeError)"

fun bundlesLoop :: "'r list jsobj \<Rightarrow> 'r list \<Rightarrow> string list \<Rightarrow> error + 'r list jsobj" where
  "bundlesLoop bundleToRules rules [] = Inr bundleToRules"
| "bundlesLoop bundleToRules rules (bundle # bundles) =
     (case pushRules bundleToRules bundle rules of
        Inl e \<Rightarrow> Inl e
      | Inr b' \<Rightarrow> bundlesLoop b' rules bundles)"

text \<open>
  The loop \<^verbatim>\<open>for (const filename in stylexRules)\<close>, over the entries of \<^verbatim>\<open>stylexRules\<close> in
  enumeration order. A file whose read of the bundle map is \<^verbatim>\<open>undefined\<close> is skipped; an
  inherited property is neither \<^verbatim>\<open>null\<close> nor iterable.
\<close>

fun filesLoop ::
  "string list jsobj \<Rightarrow> 'r list jsobj \<Rightarrow> (string \<times> 'r list) list \<Rightarrow> error + 'r list jsobj" where
  "filesLoop ftb bundleToRules [] = Inr bundleToRules"
| "filesLoop ftb bundleToRules ((file, rules) # rest) =
     (case js_get ftb file of
        Undefined \<Rightarrow> filesLoop ftb bundleToRules rest
      | Inherited \<Rightarrow> Inl TypeError
      | Own bundles \<Rightarrow>
          (case bundlesLoop bundleToRules rules bundles of
             Inl e \<Rightarrow> Inl e
           | Inr b' \<Rightarrow> filesLoop ftb b' rest))"

text \<open>
  The first loop of \<^verbatim>\<open>getBundleToStylexRules\<close>, which is only reached with at least one
  recorded file: reading a property of an \<^verbatim>\<open>undefined\<close> bundle map throws.
\<close>

definition collectBundleToRules :: "'r stylexPlugin \<Rightarrow> error + 'r list jsobj" where
  "collectBundleToRules this =
     (case fileToBundlesMap this of
        None \<Rightarrow> Inl TypeError
      | Some ftb \<Rightarrow> filesLoop ftb [] (ownEntries (stylexRules this)))"

fun processLoop ::
  "('r list \<Rightarrow> bool \<Rightarrow> error + string) \<Rightarrow> bool \<Rightarrow> string jsobj \<Rightarrow> (string \<times> 'r list) list
   \<Rightarrow> error + string jsobj" where
  "processLoop processStylexRules layers processed [] = Inr processed"
| "processLoop processStylexRules layers processed ((bundle, rules) # rest) =
     (case processStylexRules rules layers of
        Inl e \<Rightarrow> Inl e
      | Inr css \<Rightarrow> processLoop processStylexRules layers (js_set processed bundle css) rest)"

text \<open>
  \<^verbatim>\<open>getBundleToStylexRules\<close>: \<open>Inr None\<close> is the \<^verbatim>\<open>null\<close> returned when nothing was
  recorded. The rule-processing entry point of the external compiler is a parameter.
\<close>

definition getBundleToStylexRules ::
  "('r list \<Rightarrow> bool \<Rightarrow> error + string) \<Rightarrow> 'r stylexPlugin \<Rightarrow> error + string jsobj option" where
  "getBundleToStylexRules processStylexRules this =
     (if length (ownKeys (stylexRules this)) = 0 then Inr None
      else case collectBundleToRules this of
             Inl e \<Rightarrow> Inl e
           | Inr b \<Rightarrow>
               (case processLoop processStylexRules (useCSSLayers this) [] (ownEntries b) of
                  Inl e \<Rightarrow> Inl e
                | Inr processed \<Rightarrow> Inr (Some processed)))"

section \<open>Content hash and asset emission\<close>

record outputOptions =
  hashDigest :: "string option"
  hashDigestLength :: "int option"
  hashFunction :: string
  hashSalt :: "string option"

record pseudoChunk =
  pc_id :: string
  pc_name :: string
  pc_hash :: string

record pathData =
  pd_filename :: string
  pd_contentHash :: string
  pd_chunk :: pseudoChunk

record 'i compilation =
  outputOptions :: outputOptions
  assets :: "(string \<times> string \<times> 'i) list"
  errors :: "error list"

datatype babelItem =
  UserPlugin string | TypescriptSyntaxPlugin | TypescriptSyntaxPluginTSX | JsxSyntaxPlugin
  | StylexBabelPlugin babelPluginOptions

record babelOptions =
  bo_babelrc :: bool
  bo_filename :: string
  bo_plugins :: "babelItem list"
  bo_presets :: "string list"

record 'r babelResult =
  code :: string
  sourceMap :: "string option"
  metadata_stylex :: "'r list option"

text \<open>
  What the plugin calls and does not define: Node's \<^verbatim>\<open>path\<close> and \<^verbatim>\<open>fs\<close>, the compiler
  (\<^verbatim>\<open>babel.transformAsync\<close>, \<^verbatim>\<open>processStylexRules\<close>), the bundler's hash objects, its
  path interpolation and its asset registry. Each call that can throw returns a sum; a
  call that changes the compilation returns the compilation it leaves behind.
\<close>

record ('r, 'h, 'i) env =
  path_sep :: string
  path_extname :: "string \<Rightarrow> string"
  path_parse_name :: "string \<Rightarrow> string"
  readFile :: "string \<Rightarrow> error + string"
  transformAsync :: "string \<Rightarrow> babelOptions \<Rightarrow> error + 'r babelResult option"
  processStylexRules :: "'r list \<Rightarrow> bool \<Rightarrow> error + string"
  createHash :: "string \<Rightarrow> error + 'h"
  hashUpdate :: "'h \<Rightarrow> string \<Rightarrow> 'h"
  digest :: "'h \<Rightarrow> string option \<Rightarrow> error + string"
  getPathWithInfo :: "'i compilation \<Rightarrow> string \<Rightarrow> pathData \<Rightarrow> error + string \<times> 'i"
  emitAsset :: "'i compilation \<Rightarrow> string \<Rightarrow> string \<Rightarrow> 'i \<Rightarrow> 'i compilation \<times> error option"
  getChunkModules :: "chunk \<Rightarrow> jsmodule list"

text \<open>\<^verbatim>\<open>s.slice(0, n)\<close>: a negative end counts from the end, no end keeps the string.\<close>

fun slice0 :: "string \<Rightarrow> int option \<Rightarrow> string" where
  "slice0 s None = s"
| "slice0 s (Some n) = (if n < 0 then take (nat (int (length s) + n)) s else take (nat n) s)"

definition getContentHash ::
  "('r, 'h, 'i) env \<Rightarrow> 'z outputOptions_scheme \<Rightarrow> string \<Rightarrow> error + string" where
  "getContentHash env oo source =
     (case createHash env (hashFunction oo) of
        Inl e \<Rightarrow> Inl e
      | Inr hash \<Rightarrow>
          (let h1 = (case truthy (hashSalt oo) of
                       Some salt \<Rightarrow> hashUpdate env hash salt
                     | None \<Rightarrow> hash);
               h2 = hashUpdate env h1 source
           in case digest env h2 (hashDigest oo) of
                Inl e \<Rightarrow> Inl e
              | Inr fullContentHash \<Rightarrow> Inr (slice0 fullContentHash (hashDigestLength oo))))"

text \<open>The object literal \<^verbatim>\<open>data\<close> of the \<^verbatim>\<open>processAssets\<close> handler.\<close>

definition pathDataOf :: "('r, 'h, 'i) env \<Rightarrow> string \<Rightarrow> string \<Rightarrow> pathData" where
  "pathDataOf env bundle contentHash =
     (let file = bundle @ ''.stylex.css''
      in \<lparr>pd_filename = file, pd_contentHash = contentHash,
          pd_chunk = \<lparr>pc_id = file, pc_name = path_parse_name env file,
                      pc_hash = contentHash\<rparr>\<rparr>)"

text \<open>
  One pass of the loop over \<^verbatim>\<open>Object.keys(bundleToStylexRules)\<close>, in two parts: the
  content hash and the call of \<^verbatim>\<open>compilation.getPathWithInfo(data.filename, data)\<close>, which
  give \<^verbatim>\<open>hashedPath\<close> and \<^verbatim>\<open>assetsInfo\<close>; then the call of \<^verbatim>\<open>compilation.emitAsset\<close>.
\<close>

definition hashedPathOf ::
  "('r, 'h, 'i) env \<Rightarrow> 'i compilation \<Rightarrow> string \<Rightarrow> string \<Rightarrow> error + string \<times> 'i" where
  "hashedPathOf env compilation bundle collectedCSS =
     (case getContentHash env (outputOptions compilation) collectedCSS of
        Inl e \<Rightarrow> Inl e
      | Inr contentHash \<Rightarrow>
          (let data = pathDataOf env bundle contentHash
           in getPathWithInfo env compilation (pd_filename data) data))"

definition emitBundle ::
  "('r, 'h, 'i) env \<Rightarrow> 'i compilation \<Rightarrow> string \<times> string \<Rightarrow> 'i compilation \<times> error option" where
  "emitBundle env compilation entry =
     (case entry of (bundle, collectedCSS) \<Rightarrow>
        (case hashedPathOf env compilation bundle collectedCSS of
           Inl e \<Rightarrow> (compilation, Some e)
         | Inr (hashedPath, assetsInfo) \<Rightarrow>
             emitAsset env compilation hashedPath collectedCSS assetsInfo))"

fun emitLoop ::
  "('r, 'h, 'i) env \<Rightarrow> 'i compilation \<Rightarrow> (string \<times> string) list
   \<Rightarrow> 'i compilation \<times> error option" where
  "emitLoop env compilation [] = (compilation, None)"
| "emitLoop env compilation (entry # rest) =
     (case emitBundle env compilation entry of
        (c', None) \<Rightarrow> emitLoop env c' rest
      | (c', Some e) \<Rightarrow> (c', Some e))"

text \<open>
  The \<^verbatim>\<open>processAssets\<close> handler: the whole pass stands in one \<^verbatim>\<open>try\<close>, whose
  \<^verbatim>\<open>catch\<close> pushes the exception onto \<^verbatim>\<open>compilation.errors\<close>.
\<close>

definition processAssets ::
  "('r, 'h, 'i) env \<Rightarrow> 'r stylexPlugin \<Rightarrow> 'i compilation \<Rightarrow> 'i compilation" where
  "processAssets env this compilation =
     (case getBundleToStylexRules (processStylexRules env) this of
        Inl e \<Rightarrow> compilation\<lparr>errors := errors compilation @ [e]\<rparr>
      | Inr None \<Rightarrow> compilation
      | Inr (Some bundleToStylexRules) \<Rightarrow>
          (case emitLoop env compilation (ownEntries bundleToStylexRules) of
             (c', None) \<Rightarrow> c'
           | (c', Some e) \<Rightarrow> c'\<lparr>errors := errors c' @ [e]\<rparr>))"

section \<open>The transformation step\<close>

text \<open>
  \<^verbatim>\<open>transformCode\<close>, with the \<^verbatim>\<open>filename\<close> argument named as the loader passes it
  (\<^verbatim>\<open>this.resourcePath\<close>). It returns the plugin as it leaves it, the debug messages it logged and
  either the rejection of its promise or the pair of \<^verbatim>\<open>code\<close> and \<^verbatim>\<open>map\<close>. Destructuring
  a \<^verbatim>\<open>null\<close> result of the compiler throws.
\<close>

text \<open>The options object handed to \<^verbatim>\<open>babel.transformAsync\<close>.\<close>

definition transformOptions ::
  "('r, 'h, 'i) env \<Rightarrow> 'r stylexPlugin \<Rightarrow> string \<Rightarrow> babelOptions" where
  "transformOptions env this resourcePath =
     \<lparr>bo_babelrc = babelrc (babelConfig this), bo_filename = resourcePath,
      bo_plugins =
        map UserPlugin (plugins (babelConfig this))
        @ [if path_extname env resourcePath = ''.ts'' then TypescriptSyntaxPlugin
           else TypescriptSyntaxPluginTSX,
           JsxSyntaxPlugin, StylexBabelPlugin (babelPlugin this)],
      bo_presets = presets (babelConfig this)\<rparr>"

text \<open>
  The block \<^verbatim>\<open>if (metadata.stylex != null && metadata.stylex.length > 0)\<close>: the store
  into \<^verbatim>\<open>stylexRules\<close> and the debug message.
\<close>

definition recordStylex ::
  "'r stylexPlugin \<Rightarrow> string \<Rightarrow> 'r babelResult
   \<Rightarrow> 'r stylexPlugin \<times> (string \<times> 'r list) list" where
  "recordStylex this resourcePath result =
     (case metadata_stylex result of
        None \<Rightarrow> (this, [])
      | Some stylex \<Rightarrow>
          if length stylex > 0
          then (this\<lparr>stylexRules := js_set (stylexRules this) resourcePath stylex\<rparr>,
                [(resourcePath, stylex)])
          else (this, []))"

definition transformCode ::
  "('r, 'h, 'i) env \<Rightarrow> 'r stylexPlugin \<Rightarrow> string \<Rightarrow> string
   \<Rightarrow> 'r stylexPlugin \<times> (string \<times> 'r list) list \<times> (error + string \<times> string option)" where
  "transformCode env this inputCode resourcePath =
     (if list_ex (\<lambda>importName. str_includes inputCode importName) (stylexImports this) then
        (case (if babelrc (babelConfig this) then readFile env resourcePath else Inr inputCode) of
           Inl e \<Rightarrow> (this, [], Inl e)
         | Inr originalSource \<Rightarrow>
             (case transformAsync env originalSource (transformOptions env this resourcePath) of
                Inl e \<Rightarrow> (this, [], Inl e)
              | Inr None \<Rightarrow> (this, [], Inl TypeError)
              | Inr (Some result) \<Rightarrow>
                  (case recordStylex this resourcePath result of
                     (this', logged) \<Rightarrow>
                       if \<not> babelrc (babelConfig this)
                       then (this', logged, Inr (code result, sourceMap result))
                       else (this', logged, Inr (inputCode, None)))))
      else (this, [], Inr (inputCode, None)))"

section \<open>Construction and the hooks of one plugin instance\<close>

record pluginOptions =
  opt_dev :: "bool option"
  opt_appendTo :: "string option"
  opt_filename :: "string option"
  opt_stylexImports :: "string list option"
  opt_unstable_moduleResolution :: "string option"
  opt_plugins :: "string list option"
  opt_presets :: "string list option"
  opt_babelrc :: "bool option"
  opt_useCSSLayers :: "bool option"
  opt_rest :: "string list"

fun orDefault :: "'a option \<Rightarrow> 'a \<Rightarrow> 'a" where
  "orDefault None d = d"
| "orDefault (Some v) d = v"

text \<open>
  The constructor with its defaults; \<^verbatim>\<open>IS_DEV_ENV\<close> and the default module resolution
  (which reads \<^verbatim>\<open>process.cwd()\<close>) come from the process.
\<close>

definition newStylexPlugin :: "bool \<Rightarrow> string \<Rightarrow> pluginOptions \<Rightarrow> 'r stylexPlugin" where
  "newStylexPlugin IS_DEV_ENV defaultResolution opts =
     \<lparr>dev = orDefault (opt_dev opts) IS_DEV_ENV,
      filename = (case opt_filename opts of
                    Some f \<Rightarrow> Some f
                  | None \<Rightarrow> (case opt_appendTo opts of
                               None \<Rightarrow> Some ''[name].stylex.css''
                             | Some _ \<Rightarrow> None)),
      babelConfig = \<lparr>plugins = orDefault (opt_plugins opts) [],
                     presets = orDefault (opt_presets opts) [],
                     babelrc = orDefault (opt_babelrc opts) False\<rparr>,
      stylexImports = orDefault (opt_stylexImports opts) [''stylex'', ''@stylexjs/stylex''],
      babelPlugin =
        \<lparr>bp_dev = orDefault (opt_dev opts) IS_DEV_ENV,
         unstable_moduleResolution =
           orDefault (opt_unstable_moduleResolution opts) defaultResolution,
         importSources =
           orDefault (opt_stylexImports opts) [''stylex'', ''@stylexjs/stylex''],
         options = opt_rest opts\<rparr>,
      useCSSLayers = orDefault (opt_useCSSLayers opts) False,
      stylexRules = [],
      filesInLastRun = None,
      fileToBundlesMap = None\<rparr>"

text \<open>
  What the bundler does with one plugin instance, as events: \<open>Make\<close> is the start of a
  compilation (the \<^verbatim>\<open>make\<close> hook, which only taps the hooks of the new compilation), the
  others are the tapped hooks and the loader's call of \<^verbatim>\<open>transformCode\<close>. The loader hook
  changes the loader list of the module it is given and nothing of the plugin.
\<close>

datatype 'i event =
  Make "'i compilation"
  | LoaderHook jsmodule
  | TransformCode string string
  | FinishModules "jsmodule list"
  | AfterOptimizeChunks "chunk list"
  | ProcessAssets

record ('r, 'i) world =
  plugin :: "'r stylexPlugin"
  current :: "'i compilation"

fun step :: "('r, 'h, 'i) env \<Rightarrow> ('r, 'i) world \<Rightarrow> 'i event \<Rightarrow> ('r, 'i) world" where
  "step env w (Make c) = w\<lparr>current := c\<rparr>"
| "step env w (LoaderHook md) = w"
| "step env w (TransformCode inputCode path) =
     w\<lparr>plugin := fst (transformCode env (plugin w) inputCode path)\<rparr>"
| "step env w (FinishModules modules) =
     w\<lparr>plugin := (plugin w)\<lparr>filesInLastRun := Some (map resource modules)\<rparr>\<rparr>"
| "step env w (AfterOptimizeChunks chunks) =
     w\<lparr>plugin := fst (afterOptimizeChunks (path_sep env) (getChunkModules env) (plugin w) chunks)\<rparr>"
| "step env w ProcessAssets = w\<lparr>current := processAssets env (plugin w) (current w)\<rparr>"

definition run :: "('r, 'h, 'i) env \<Rightarrow> ('r, 'i) world \<Rightarrow> 'i event list \<Rightarrow> ('r, 'i) world" where
  "run env w evs = foldl (step env) w evs"

section \<open>Notions used in the statements\<close>

text \<open>
  What the tracker maintains of the map it builds: no array holds a chunk name twice, and
  no key is a path of a dependency directory.
\<close>

definition tracked :: "string \<Rightarrow> string list jsobj \<Rightarrow> bool" where
  "tracked sep m = (\<forall>p bs. map_of m p = Some bs \<longrightarrow> distinct bs \<and> \<not> isNodeModule sep p)"



section \<open>A small build, used to exercise the statements below\<close>

definition demoChunks :: "chunk list" where
  "demoChunks =
     [\<lparr>name = Some ''main'', chunkId = Some (NumId 0), renderedHash = None\<rparr>,
      \<lparr>name = None, chunkId = Some (NumId 7), renderedHash = None\<rparr>]"

definition demoGraph :: "chunk \<Rightarrow> jsmodule list" where
  "demoGraph c =
     (if name c = Some ''main''
      then [\<lparr>resource = Some ''/src/a.js''\<rparr>,
            \<lparr>resource = Some ''/app/node_modules/react/index.js''\<rparr>,
            \<lparr>resource = None\<rparr>,
            \<lparr>resource = Some ''/src/a.js''\<rparr>]
      else [\<lparr>resource = Some ''/src/a.js''\<rparr>, \<lparr>resource = Some ''/src/b.js''\<rparr>])"

definition demoPlugin :: "string stylexPlugin" where
  "demoPlugin =
     (newStylexPlugin False ''commonJS'' 
        \<lparr>opt_dev = None, opt_appendTo = None, opt_filename = None, opt_stylexImports = None,
         opt_unstable_moduleResolution = None, opt_plugins = None, opt_presets = None,
         opt_babelrc = None, opt_useCSSLayers = None, opt_rest = []\<rparr>)"

text \<open>
  Stand-ins for what the plugin calls: the name part of a POSIX path that does not end in a
  separator, a compiler that reports one rule per file, a rule processor that joins the
  rules, a hash object that collects its updates and digests them to the decimal sum of
  their bytes (it knows the function \<^verbatim>\<open>md4\<close> only), a path interpolation for templates
  without placeholders, and an asset registry that appends.
\<close>

definition posixParseName :: "string \<Rightarrow> string" where
  "posixParseName p =
     (let base = rev (takeWhile (\<lambda>c. c \<noteq> CHR ''/'') (rev p));
          ext = takeWhile (\<lambda>c. c \<noteq> CHR ''.'') (rev base)
      in if length base \<le> length ext + 1 then base
         else take (length base - (length ext + 1)) base)"

definition demoEnv :: "(string, string list, string) env" where
  "demoEnv =
     \<lparr>path_sep = ''/'',
      path_extname = (\<lambda>p. ''.'' @ rev (takeWhile (\<lambda>c. c \<noteq> CHR ''.'') (rev p))),
      path_parse_name = posixParseName,
      readFile = (\<lambda>p. Inl (Thrown ''ENOENT'')),
      transformAsync =
        (\<lambda>src opts. Inr (Some \<lparr>code = ''/*compiled*/'' @ src, sourceMap = Some ''map'',
                                 metadata_stylex = Some [''.x'' @ bo_filename opts]\<rparr>)),
      processStylexRules = (\<lambda>rules layers. Inr (concat rules)),
      createHash = (\<lambda>fn. if fn = ''md4'' then Inr [] else Inl (Thrown ''unsupported'')),
      hashUpdate = (\<lambda>h s. h @ [s]),
      digest = (\<lambda>h enc. Inr (toString (foldl (\<lambda>a c. a + of_char c) 0 (concat h)))),
      getPathWithInfo = (\<lambda>c template data. Inr (template, ''info'')),
      emitAsset = (\<lambda>c p src info. (c\<lparr>assets := assets c @ [(p, src, info)]\<rparr>, None)),
      getChunkModules = demoGraph\<rparr>"

definition demoCompilation :: "string compilation" where
  "demoCompilation =
     \<lparr>outputOptions = \<lparr>hashDigest = Some ''hex'', hashDigestLength = Some 20,
                        hashFunction = ''md4'', hashSalt = None\<rparr>,
      assets = [], errors = []\<rparr>"

text \<open>
  The plugin of the small build after its files were transformed and its chunks tracked:
  \<^verbatim>\<open>/src/unused.js\<close> has rules and belongs to no chunk.
\<close>

definition demoBuilt :: "string stylexPlugin" where
  "demoBuilt =
     demoPlugin
       \<lparr>stylexRules := [(''/src/a.js'', [''.a{}'']), (''/src/b.js'', [''.b{}'']),
                        (''/src/unused.js'', [''.u{}''])],
        fileToBundlesMap := Some [(''/src/a.js'', [''main'', ''7'']), (''/src/b.js'', [''7''])]\<rparr>"



section \<open>Lemmas on the object model and the tracker\<close>

declare toString.simps [simp del]

lemma map_of_js_set: "map_of (js_set m k v) = (map_of m)(k \<mapsto> v)"
  by (induction m) (auto simp: fun_eq_iff)

lemma toString_nonempty: "toString n \<noteq> []"
  by (subst toString.simps) simp

lemma truthy_Some: "truthy x = Some s \<longleftrightarrow> x = Some s \<and> s \<noteq> []"
  by (cases x) auto

lemma chunkName_nonempty: "chunkName c \<noteq> []"
  by (auto simp: chunkName_def toString_nonempty truthy_Some split: option.splits if_splits)

lemma addBundle_None:
  "addBundle m p cn = (m', None) \<Longrightarrow>
     map_of m' = (map_of m)(p \<mapsto> (case map_of m p of None \<Rightarrow> [cn]
                                   | Some bs \<Rightarrow> if cn \<in> set bs then bs else bs @ [cn]))"
  by (auto simp: addBundle_def js_get_def map_of_js_set Let_def fun_eq_iff
           split: option.splits if_splits jsval.splits)

lemma addBundle_Some: "addBundle m p cn = (m', Some e) \<Longrightarrow> m' = m \<and> e = TypeError \<and> p \<in> set objectPrototypeKeys \<and> map_of m p = None"
  by (auto simp: addBundle_def js_get_def map_of_js_set Let_def fun_eq_iff
           split: option.splits if_splits jsval.splits)

lemma addBundle_total: "p \<notin> set objectPrototypeKeys \<Longrightarrow> \<exists>m'. addBundle m p cn = (m', None)"
  by (auto simp: addBundle_def js_get_def map_of_js_set Let_def fun_eq_iff
           split: option.splits if_splits jsval.splits)

lemma addBundle_None_at:
  assumes "addBundle m p cn = (m', None)"
  shows "map_of m' q = (if q = p then Some (case map_of m p of None \<Rightarrow> [cn]
                                   | Some bs \<Rightarrow> if cn \<in> set bs then bs else bs @ [cn]) else map_of m q)"
  using addBundle_None[OF assms] by simp

lemma addBundle_tracked:
  assumes ab: "addBundle m p cn = (m', e)" and nm: "\<not> isNodeModule sep p"
      and tr: "tracked sep m"
  shows "tracked sep m'"
proof (cases e)
  case None
  have upd: "map_of m' q = (if q = p then Some (case map_of m p of None \<Rightarrow> [cn]
                                   | Some bs \<Rightarrow> if cn \<in> set bs then bs else bs @ [cn]) else map_of m q)" for q
    by (rule addBundle_None_at) (use ab None in simp)
  show ?thesis
    unfolding tracked_def
  proof (intro allI impI)
    fix q bs
    assume q: "map_of m' q = Some bs"
    show "distinct bs \<and> \<not> isNodeModule sep q"
    proof (cases "q = p")
      case True
      show ?thesis
      proof (cases "map_of m p")
        case None
        from q have "bs = [cn]" unfolding upd True None by simp
        with True nm show ?thesis by simp
      next
        case (Some old)
        with tr have "distinct old" unfolding tracked_def by blast
        moreover from q have "bs = (if cn \<in> set old then old else old @ [cn])"
          unfolding upd True Some by simp
        ultimately show ?thesis using True nm by simp
      qed
    next
      case False
      with q have "map_of m q = Some bs" unfolding upd by simp
      with tr show ?thesis unfolding tracked_def by blast
    qed
  qed
next
  case (Some err)
  from addBundle_Some[OF ab[unfolded Some]] have "m' = m" by simp
  with tr show ?thesis by simp
qed

lemma addBundle_grows:
  "addBundle m p cn = (m', e) \<Longrightarrow> map_of m q = Some bs \<Longrightarrow>
     \<exists>bs'. map_of m' q = Some bs' \<and> set bs \<subseteq> set bs'"
  by (cases e) (auto dest!: addBundle_None addBundle_Some split: option.splits if_splits)

lemma addBundle_dom:
  "addBundle m p cn = (m', e) \<Longrightarrow> dom (map_of m') \<subseteq> insert p (dom (map_of m))"
  by (cases e) (auto dest!: addBundle_None addBundle_Some split: option.splits if_splits)

lemma moduleLoop_Cons_cases:
  assumes "moduleLoop sep cn m (md # mds) = (m', e)"
  obtains (skip) "moduleLoop sep cn m mds = (m', e)"
      and "\<forall>p. truthy (resource md) = Some p \<longrightarrow> isNodeModule sep p"
    | (add) p m1 where "truthy (resource md) = Some p" "\<not> isNodeModule sep p"
        "addBundle m p cn = (m1, None)" "moduleLoop sep cn m1 mds = (m', e)"
    | (throw) p err where "truthy (resource md) = Some p" "\<not> isNodeModule sep p"
        "addBundle m p cn = (m', Some err)" "e = Some err"
  using assms by (auto split: option.splits if_splits prod.splits)

lemma moduleLoop_invariant:
  assumes run: "moduleLoop sep cn m mds = (m', e)"
      and init: "P m"
      and step: "\<And>m p m1 e1. P m \<Longrightarrow> \<exists>md \<in> set mds. truthy (resource md) = Some p \<Longrightarrow>
                   \<not> isNodeModule sep p \<Longrightarrow> addBundle m p cn = (m1, e1) \<Longrightarrow> P m1"
  shows "P m'"
  using run init step
proof (induction mds arbitrary: m)
  case Nil
  then show ?case by simp
next
  case (Cons md mds)
  from Cons.prems(1) show ?case
  proof (cases rule: moduleLoop_Cons_cases)
    case skip
    show ?thesis
      by (rule Cons.IH[OF skip(1) Cons.prems(2)]) (rule Cons.prems(3), auto)
  next
    case (add p m1)
    have "P m1" by (rule Cons.prems(3)[OF Cons.prems(2) _ add(2,3)]) (use add(1) in auto)
    show ?thesis
      by (rule Cons.IH[OF add(4) \<open>P m1\<close>]) (rule Cons.prems(3), auto)
  next
    case (throw p err)
    show ?thesis by (rule Cons.prems(3)[OF Cons.prems(2) _ throw(2,3)]) (use throw(1) in auto)
  qed
qed

lemma moduleLoop_tracked:
  assumes "moduleLoop sep cn m mds = (m', e)" and "tracked sep m"
  shows "tracked sep m'"
proof (rule moduleLoop_invariant[OF assms(1), where P = "tracked sep"])
  show "tracked sep m" by (rule assms(2))
next
  fix m p m1 e1
  assume "tracked sep m" "\<not> isNodeModule sep p" "addBundle m p cn = (m1, e1)"
  then show "tracked sep m1" by (simp add: addBundle_tracked)
qed

lemma moduleLoop_grows:
  assumes "moduleLoop sep cn m mds = (m', e)" and "map_of m q = Some bs"
  shows "\<exists>bs'. map_of m' q = Some bs' \<and> set bs \<subseteq> set bs'"
proof (rule moduleLoop_invariant[OF assms(1), where P = "\<lambda>m. \<exists>bs'. map_of m q = Some bs' \<and> set bs \<subseteq> set bs'"])
  show "\<exists>bs'. map_of m q = Some bs' \<and> set bs \<subseteq> set bs'" using assms(2) by simp
next
  fix m p m1 e1
  assume "\<exists>bs'. map_of m q = Some bs' \<and> set bs \<subseteq> set bs'" and ab: "addBundle m p cn = (m1, e1)"
  then obtain b1 where "map_of m q = Some b1" "set bs \<subseteq> set b1" by blast
  with addBundle_grows[OF ab this(1)]
  show "\<exists>bs'. map_of m1 q = Some bs' \<and> set bs \<subseteq> set bs'" by blast
qed

lemma moduleLoop_dom:
  assumes "moduleLoop sep cn m mds = (m', e)"
  shows "dom (map_of m') \<subseteq> dom (map_of m) \<union> {p. \<exists>md \<in> set mds. truthy (resource md) = Some p}"
    (is "_ \<subseteq> ?D")
proof (rule moduleLoop_invariant[OF assms(1), where P = "\<lambda>m. dom (map_of m) \<subseteq> ?D"])
  show "dom (map_of m) \<subseteq> ?D" by blast
next
  fix m0 p m1 e1
  assume "dom (map_of m0) \<subseteq> ?D" "\<exists>md \<in> set mds. truthy (resource md) = Some p"
    and ab: "addBundle m0 p cn = (m1, e1)"
  with addBundle_dom[OF ab] show "dom (map_of m1) \<subseteq> ?D" by blast
qed

lemma moduleLoop_member:
  "moduleLoop sep cn m mds = (m', None) \<Longrightarrow> md \<in> set mds \<Longrightarrow>
   truthy (resource md) = Some p \<Longrightarrow> \<not> isNodeModule sep p \<Longrightarrow>
     \<exists>bs. map_of m' p = Some bs \<and> cn \<in> set bs"
proof (induction mds arbitrary: m)
  case Nil
  then show ?case by simp
next
  case (Cons a mds)
  from Cons.prems(1) show ?case
  proof (cases rule: moduleLoop_Cons_cases)
    case skip
    with Cons.prems have "md \<in> set mds" by auto
    from Cons.IH[OF skip(1) this Cons.prems(3,4)] show ?thesis .
  next
    case (add q m1)
    show ?thesis
    proof (cases "a = md")
      case True
      with add(1) Cons.prems(3) have "q = p" by simp
      with addBundle_None[OF add(3)] have "\<exists>bs. map_of m1 p = Some bs \<and> cn \<in> set bs"
        by (auto split: option.splits)
      then obtain bs where "map_of m1 p = Some bs" "cn \<in> set bs" by blast
      with moduleLoop_grows[OF add(4) this(1)] show ?thesis by blast
    next
      case False
      with Cons.prems(2) have "md \<in> set mds" by simp
      from Cons.IH[OF add(4) this Cons.prems(3,4)] show ?thesis .
    qed
  next
    case (throw q err)
    then show ?thesis by simp
  qed
qed

lemma moduleLoop_total:
  "\<forall>md \<in> set mds. \<forall>p. truthy (resource md) = Some p \<longrightarrow> p \<notin> set objectPrototypeKeys \<Longrightarrow>
     \<exists>m'. moduleLoop sep cn m mds = (m', None)"
proof (induction mds arbitrary: m)
  case Nil
  then show ?case by simp
next
  case (Cons md mds)
  show ?case
  proof (cases "truthy (resource md)")
    case None
    with Cons show ?thesis by simp
  next
    case (Some p)
    with Cons.prems have "p \<notin> set objectPrototypeKeys" by simp
    from addBundle_total[OF this] obtain m1 where "addBundle m p cn = (m1, None)" by blast
    moreover from Cons have "\<exists>m'. moduleLoop sep cn m mds = (m', None)"
      "\<exists>m'. moduleLoop sep cn m1 mds = (m', None)" by simp_all
    ultimately show ?thesis using Some by simp
  qed
qed

lemma chunkLoop_Cons:
  "chunkLoop sep gcm m (c # cs) =
     (case moduleLoop sep (chunkName c) m (gcm c) of
        (m', None) \<Rightarrow> chunkLoop sep gcm m' cs
      | (m', Some e) \<Rightarrow> (m', Some e))"
  by (simp add: chunkName_nonempty)

lemma chunkLoop_Cons_cases:
  assumes "chunkLoop sep gcm m (c # cs) = (m', e)"
  obtains (continue) m1 where "moduleLoop sep (chunkName c) m (gcm c) = (m1, None)"
        "chunkLoop sep gcm m1 cs = (m', e)"
    | (throw) err where "moduleLoop sep (chunkName c) m (gcm c) = (m', Some err)" "e = Some err"
  using assms unfolding chunkLoop_Cons by (auto split: prod.splits option.splits)

lemma chunkLoop_invariant:
  assumes run: "chunkLoop sep gcm m cs = (m', e)"
      and init: "P m"
      and step: "\<And>m c m1 e1. P m \<Longrightarrow> c \<in> set cs \<Longrightarrow>
                   moduleLoop sep (chunkName c) m (gcm c) = (m1, e1) \<Longrightarrow> P m1"
  shows "P m'"
  using run init step
proof (induction cs arbitrary: m)
  case Nil
  then show ?case by simp
next
  case (Cons c cs)
  from Cons.prems(1) show ?case
  proof (cases rule: chunkLoop_Cons_cases)
    case (continue m1)
    have "P m1" by (rule Cons.prems(3)[OF Cons.prems(2) _ continue(1)]) simp
    show ?thesis
      by (rule Cons.IH[OF continue(2) \<open>P m1\<close>]) (rule Cons.prems(3), auto)
  next
    case (throw err)
    show ?thesis by (rule Cons.prems(3)[OF Cons.prems(2) _ throw(1)]) simp
  qed
qed

lemma chunkLoop_tracked:
  assumes "chunkLoop sep gcm m cs = (m', e)" and "tracked sep m"
  shows "tracked sep m'"
proof (rule chunkLoop_invariant[OF assms(1), where P = "tracked sep"])
  show "tracked sep m" by (rule assms(2))
next
  fix m c m1 e1
  assume "tracked sep m" "moduleLoop sep (chunkName c) m (gcm c) = (m1, e1)"
  then show "tracked sep m1" by (simp add: moduleLoop_tracked)
qed

lemma chunkLoop_grows:
  assumes "chunkLoop sep gcm m cs = (m', e)" and "map_of m q = Some bs"
  shows "\<exists>bs'. map_of m' q = Some bs' \<and> set bs \<subseteq> set bs'"
proof (rule chunkLoop_invariant[OF assms(1), where P = "\<lambda>m. \<exists>bs'. map_of m q = Some bs' \<and> set bs \<subseteq> set bs'"])
  show "\<exists>bs'. map_of m q = Some bs' \<and> set bs \<subseteq> set bs'" using assms(2) by simp
next
  fix m c m1 e1
  assume "\<exists>bs'. map_of m q = Some bs' \<and> set bs \<subseteq> set bs'"
    and ml: "moduleLoop sep (chunkName c) m (gcm c) = (m1, e1)"
  then obtain b1 where "map_of m q = Some b1" "set bs \<subseteq> set b1" by blast
  with moduleLoop_grows[OF ml this(1)]
  show "\<exists>bs'. map_of m1 q = Some bs' \<and> set bs \<subseteq> set bs'" by blast
qed

lemma chunkLoop_dom:
  assumes "chunkLoop sep gcm m cs = (m', e)"
  shows "dom (map_of m') \<subseteq> dom (map_of m) \<union>
           {p. \<exists>c \<in> set cs. \<exists>md \<in> set (gcm c). truthy (resource md) = Some p}"
    (is "_ \<subseteq> ?D")
proof (rule chunkLoop_invariant[OF assms(1), where P = "\<lambda>m. dom (map_of m) \<subseteq> ?D"])
  show "dom (map_of m) \<subseteq> ?D" by blast
next
  fix m0 c m1 e1
  assume "dom (map_of m0) \<subseteq> ?D" "c \<in> set cs"
    and ml: "moduleLoop sep (chunkName c) m0 (gcm c) = (m1, e1)"
  with moduleLoop_dom[OF ml] show "dom (map_of m1) \<subseteq> ?D" by blast
qed

lemma chunkLoop_member:
  "chunkLoop sep gcm m cs = (m', None) \<Longrightarrow> c \<in> set cs \<Longrightarrow> md \<in> set (gcm c) \<Longrightarrow>
   truthy (resource md) = Some p \<Longrightarrow> \<not> isNodeModule sep p \<Longrightarrow>
     \<exists>bs. map_of m' p = Some bs \<and> chunkName c \<in> set bs"
proof (induction cs arbitrary: m)
  case Nil
  then show ?case by simp
next
  case (Cons a cs)
  from Cons.prems(1) show ?case
  proof (cases rule: chunkLoop_Cons_cases)
    case (continue m1)
    show ?thesis
    proof (cases "a = c")
      case True
      from moduleLoop_member[OF continue(1)[unfolded True] Cons.prems(3,4,5)]
      obtain bs where "map_of m1 p = Some bs" "chunkName c \<in> set bs" by blast
      with chunkLoop_grows[OF continue(2) this(1)] show ?thesis by blast
    next
      case False
      with Cons.prems(2) have "c \<in> set cs" by simp
      from Cons.IH[OF continue(2) this Cons.prems(3,4,5)] show ?thesis .
    qed
  next
    case (throw err)
    then show ?thesis by simp
  qed
qed

lemma chunkLoop_total:
  "\<forall>c \<in> set cs. \<forall>md \<in> set (gcm c). \<forall>p. truthy (resource md) = Some p \<longrightarrow>
      p \<notin> set objectPrototypeKeys \<Longrightarrow>
     \<exists>m'. chunkLoop sep gcm m cs = (m', None)"
proof (induction cs arbitrary: m)
  case Nil
  then show ?case by simp
next
  case (Cons c cs)
  then have "\<forall>md \<in> set (gcm c). \<forall>p. truthy (resource md) = Some p \<longrightarrow> p \<notin> set objectPrototypeKeys"
    by simp
  from moduleLoop_total[OF this] obtain m1 where
    "moduleLoop sep (chunkName c) m (gcm c) = (m1, None)" by blast
  moreover from Cons have "\<exists>m'. chunkLoop sep gcm m1 cs = (m', None)" by simp
  ultimately show ?case unfolding chunkLoop_Cons by simp
qed

lemma tracked_empty: "tracked sep []"
  by (simp add: tracked_def)

lemma count_list_distinct: "distinct xs \<Longrightarrow> x \<in> set xs \<Longrightarrow> count_list xs x = 1"
  by (induction xs) auto

section \<open>Lemmas on the rule aggregator\<close>

lemma js_get_Own: "js_get m k = Own v \<longleftrightarrow> map_of m k = Some v"
  by (auto simp: js_get_def split: option.splits)

lemma js_get_Undefined: "js_get m k = Undefined \<Longrightarrow> map_of m k = None"
  by (auto simp: js_get_def split: option.splits if_splits)









lemma mset_ownEntries: "mset (ownEntries ob) = mset ob"
  by (simp add: ownEntries_def)

lemma set_ownEntries: "set (ownEntries ob) = set ob"
  using mset_ownEntries[of ob] by (metis set_mset_mset)
















text \<open>
  A chunk may be named like a property of \<^verbatim>\<open>Object.prototype\<close>. The tracker records it as
  any other name; the aggregator then reads the inherited function where it expects its
  array, and throws.
\<close>

lemma prototype_named_bundle_throws:
  "getBundleToStylexRules P
     (demoPlugin\<lparr>stylexRules := [(''/src/a.js'', [''.a{}''])],
                 fileToBundlesMap := Some [(''/src/a.js'', [''constructor''])]\<rparr>)
     = Inl TypeError"
  by (simp add: getBundleToStylexRules_def collectBundleToRules_def ownKeys_def ownEntries_def
        isArrayIndex_def isDigit_def pushRules_def js_get_def objectPrototypeKeys_def)

text \<open>
  File paths: a string with a character that is no digit is no array index, and one with a
  path separator or a dot is no property name of \<^verbatim>\<open>Object.prototype\<close>.
\<close>

lemma path_not_array_index: "c \<in> set p \<Longrightarrow> \<not> isDigit c \<Longrightarrow> \<not> isArrayIndex p"
  by (auto simp: isArrayIndex_def list_all_iff)

lemma path_not_prototype_key:
  "CHR ''/'' \<in> set p \<or> CHR 0x5C \<in> set p \<or> CHR ''.'' \<in> set p \<Longrightarrow> p \<notin> set objectPrototypeKeys"
  by (auto simp: objectPrototypeKeys_def)

section \<open>The bundle-membership tracker: what it records\<close>

lemma demo_resources_plain:
  "\<forall>c \<in> set demoChunks. \<forall>md \<in> set (demoGraph c). \<forall>p.
      truthy (resource md) = Some p \<longrightarrow> p \<notin> set objectPrototypeKeys"
  by (auto simp: demoChunks_def demoGraph_def objectPrototypeKeys_def truthy_Some)

text \<open>
  C3. When no module resource is the name of a property of \<^verbatim>\<open>Object.prototype\<close> (resources
  are file paths), the \<^verbatim>\<open>afterOptimizeChunks\<close> handler returns normally, and for every chunk
  and every module of the chunk with a truthy resource: a path containing
  \<^verbatim>\<open>sep + "node_modules" + sep\<close> is no key of the file-to-bundles map; any other path is a
  key, and the chunk's name occurs exactly once in its list, however often the module was
  met.
\<close>

theorem tracker_records_membership:
  assumes "\<forall>c \<in> set chunks. \<forall>md \<in> set (gcm c). \<forall>p.
             truthy (resource md) = Some p \<longrightarrow> p \<notin> set objectPrototypeKeys"
  shows "\<exists>m. afterOptimizeChunks sep gcm this chunks = (this\<lparr>fileToBundlesMap := Some m\<rparr>, None)
           \<and> (\<forall>c \<in> set chunks. \<forall>md \<in> set (gcm c). \<forall>p.
                 truthy (resource md) = Some p \<longrightarrow>
                   (if isNodeModule sep p then map_of m p = None
                    else \<exists>bs. map_of m p = Some bs \<and> count_list bs (chunkName c) = 1))"
proof -
  from chunkLoop_total[OF assms] obtain m where run: "chunkLoop sep gcm [] chunks = (m, None)"
    by blast
  have tr: "tracked sep m" by (rule chunkLoop_tracked[OF run tracked_empty])
  have "if isNodeModule sep p then map_of m p = None
        else \<exists>bs. map_of m p = Some bs \<and> count_list bs (chunkName c) = 1"
    if "c \<in> set chunks" "md \<in> set (gcm c)" "truthy (resource md) = Some p" for c md p
  proof (cases "isNodeModule sep p")
    case True
    have "map_of m p \<noteq> Some bs" for bs
      using tr True unfolding tracked_def by blast
    then have "map_of m p = None" by (cases "map_of m p") blast+
    with True show ?thesis by simp
  next
    case False
    from chunkLoop_member[OF run that False] obtain bs where
      bs: "map_of m p = Some bs" "chunkName c \<in> set bs" by blast
    with tr have "distinct bs" unfolding tracked_def by blast
    with bs False show ?thesis by (simp add: count_list_distinct)
  qed
  then have "\<forall>c \<in> set chunks. \<forall>md \<in> set (gcm c). \<forall>p.
                 truthy (resource md) = Some p \<longrightarrow>
                   (if isNodeModule sep p then map_of m p = None
                    else \<exists>bs. map_of m p = Some bs \<and> count_list bs (chunkName c) = 1)"
    by blast
  moreover have "afterOptimizeChunks sep gcm this chunks = (this\<lparr>fileToBundlesMap := Some m\<rparr>, None)"
    using run by (simp add: afterOptimizeChunks_def)
  ultimately show ?thesis by blast
qed

text \<open>
  In the small build, chunk \<open>main\<close> holds \<^verbatim>\<open>/src/a.js\<close> twice and a file of a dependency
  directory.
\<close>

theorem tracker_records_membership_witness:
  "\<exists>m. afterOptimizeChunks ''/'' demoGraph demoPlugin demoChunks
          = (demoPlugin\<lparr>fileToBundlesMap := Some m\<rparr>, None)
     \<and> map_of m ''/app/node_modules/react/index.js'' = None
     \<and> (\<exists>bs. map_of m ''/src/a.js'' = Some bs \<and> count_list bs ''main'' = 1)"
proof -
  let ?c = "\<lparr>name = Some ''main'', chunkId = Some (NumId 0), renderedHash = None\<rparr>"
  from tracker_records_membership[OF demo_resources_plain, of "''/''" demoPlugin]
  obtain m where
    run: "afterOptimizeChunks ''/'' demoGraph demoPlugin demoChunks
            = (demoPlugin\<lparr>fileToBundlesMap := Some m\<rparr>, None)"
    and props: "\<forall>c \<in> set demoChunks. \<forall>md \<in> set (demoGraph c). \<forall>p.
                 truthy (resource md) = Some p \<longrightarrow>
                   (if isNodeModule ''/'' p then map_of m p = None
                    else \<exists>bs. map_of m p = Some bs \<and> count_list bs (chunkName c) = 1)"
    by blast
  have c: "?c \<in> set demoChunks" by (simp add: demoChunks_def)
  have dep: "\<lparr>resource = Some ''/app/node_modules/react/index.js''\<rparr> \<in> set (demoGraph ?c)"
    and src: "\<lparr>resource = Some ''/src/a.js''\<rparr> \<in> set (demoGraph ?c)"
    by (simp_all add: demoGraph_def)
  from props c dep have "map_of m ''/app/node_modules/react/index.js'' = None"
    by (force simp: isNodeModule_def)
  moreover from props c src
  have "\<exists>bs. map_of m ''/src/a.js'' = Some bs \<and> count_list bs ''main'' = 1"
    by (force simp: isNodeModule_def chunkName_def)
  ultimately show ?thesis using run by blast
qed

section \<open>The tracker rebuilds the map on every invocation\<close>

text \<open>
  C7. The map the \<^verbatim>\<open>afterOptimizeChunks\<close> handler leaves behind is the same whatever the
  plugin held before (it is built from the chunks of this invocation alone), and it has
  no entry for a file that is the resource of no module of these chunks. Both hold also
  when the handler is left by an exception.
\<close>

theorem tracker_replaces_map:
  "fileToBundlesMap (fst (afterOptimizeChunks sep gcm this chunks))
     = fileToBundlesMap (fst (afterOptimizeChunks sep gcm this' chunks))
   \<and> (\<exists>m. fileToBundlesMap (fst (afterOptimizeChunks sep gcm this chunks)) = Some m
          \<and> (\<forall>f. (\<forall>c \<in> set chunks. \<forall>md \<in> set (gcm c). resource md \<noteq> Some f)
                 \<longrightarrow> map_of m f = None))"
proof -
  obtain m e where run: "chunkLoop sep gcm [] chunks = (m, e)"
    by (cases "chunkLoop sep gcm [] chunks")
  have "map_of m f = None" if "\<forall>c \<in> set chunks. \<forall>md \<in> set (gcm c). resource md \<noteq> Some f" for f
  proof -
    from that have "f \<notin> {p. \<exists>c \<in> set chunks. \<exists>md \<in> set (gcm c). truthy (resource md) = Some p}"
      by (auto simp: truthy_Some)
    with chunkLoop_dom[OF run] have "f \<notin> dom (map_of m)" by auto
    then show ?thesis by blast
  qed
  with run show ?thesis by (simp add: afterOptimizeChunks_def)
qed

text \<open>
  A plugin that still holds \<^verbatim>\<open>/src/old.js\<close> from an earlier compilation loses the entry
  when the tracker runs over chunks without that file.
\<close>

theorem tracker_replaces_map_witness:
  "map_of [(''/src/old.js'', [''main''])] ''/src/old.js'' = Some [''main'']
   \<and> (\<exists>m. fileToBundlesMap
             (fst (afterOptimizeChunks ''/'' demoGraph
                     (demoPlugin\<lparr>fileToBundlesMap := Some [(''/src/old.js'', [''main''])]\<rparr>)
                     demoChunks)) = Some m
          \<and> map_of m ''/src/old.js'' = None)"
proof -
  have absent: "\<forall>c \<in> set demoChunks. \<forall>md \<in> set (demoGraph c). resource md \<noteq> Some ''/src/old.js''"
    by (simp add: demoChunks_def demoGraph_def)
  from tracker_replaces_map[of "''/''" demoGraph
         "demoPlugin\<lparr>fileToBundlesMap := Some [(''/src/old.js'', [''main''])]\<rparr>" demoChunks
         "demoPlugin\<lparr>fileToBundlesMap := Some [(''/src/old.js'', [''main''])]\<rparr>"]
  obtain m where
    "fileToBundlesMap
       (fst (afterOptimizeChunks ''/'' demoGraph
               (demoPlugin\<lparr>fileToBundlesMap := Some [(''/src/old.js'', [''main''])]\<rparr>)
               demoChunks)) = Some m"
    and "\<forall>f. (\<forall>c \<in> set demoChunks. \<forall>md \<in> set (demoGraph c). resource md \<noteq> Some f)
            \<longrightarrow> map_of m f = None"
    by blast
  with absent show ?thesis by auto
qed

section \<open>The chunk identifier is never empty\<close>

text \<open>
  C10. The name the tracker derives for a chunk is never the empty string, so one pass of
  the loop over the chunks never takes the \<^verbatim>\<open>if (!chunkName) continue\<close> branch: it always
  runs the loop over the chunk's modules. A chunk without a truthy name, without an id and
  without a rendered hash is named \<^verbatim>\<open>chunk-undefined\<close>, and its files are recorded under
  that name.
\<close>

theorem chunk_identifier_never_empty:
  "chunkName c \<noteq> []
   \<and> chunkLoop sep gcm m (c # cs)
       = (case moduleLoop sep (chunkName c) m (gcm c) of
            (m', None) \<Rightarrow> chunkLoop sep gcm m' cs
          | (m', Some e) \<Rightarrow> (m', Some e))
   \<and> (truthy (name c) = None \<and> chunkId c = None \<and> renderedHash c = None
        \<longrightarrow> chunkName c = ''chunk-undefined'')
   \<and> (truthy (name c) = None \<and> chunkId c = None \<and> renderedHash c = None
        \<and> c \<in> set chunks \<and> md \<in> set (gcm c) \<and> truthy (resource md) = Some p
        \<and> \<not> isNodeModule sep p
        \<and> afterOptimizeChunks sep gcm this chunks = (this', None)
        \<longrightarrow> (\<exists>fm bs. fileToBundlesMap this' = Some fm \<and> map_of fm p = Some bs
                     \<and> ''chunk-undefined'' \<in> set bs))"
proof -
  have named: "chunkName c = ''chunk-undefined''"
    if "truthy (name c) = None" "chunkId c = None" "renderedHash c = None"
    using that by (simp add: chunkName_def)
  have recorded: "\<exists>fm bs. fileToBundlesMap this' = Some fm \<and> map_of fm p = Some bs
                     \<and> ''chunk-undefined'' \<in> set bs"
    if absent: "truthy (name c) = None" "chunkId c = None" "renderedHash c = None"
      and inp: "c \<in> set chunks" "md \<in> set (gcm c)" "truthy (resource md) = Some p"
        "\<not> isNodeModule sep p"
      and run: "afterOptimizeChunks sep gcm this chunks = (this', None)"
  proof -
    obtain fm e where loop: "chunkLoop sep gcm [] chunks = (fm, e)"
      by (cases "chunkLoop sep gcm [] chunks")
    with run have e: "e = None" and this': "fileToBundlesMap this' = Some fm"
      by (auto simp: afterOptimizeChunks_def)
    from chunkLoop_member[OF loop[unfolded e] inp] obtain bs where
      "map_of fm p = Some bs" "chunkName c \<in> set bs" by blast
    with named[OF absent] this' show ?thesis by auto
  qed
  from named recorded show ?thesis
    by (simp only: chunkName_nonempty chunkLoop_Cons not_False_eq_True simp_thms) blast
qed

theorem chunk_identifier_never_empty_witness:
  "chunkName \<lparr>name = Some [], chunkId = None, renderedHash = None\<rparr> = ''chunk-undefined''
   \<and> (\<exists>fm bs. fileToBundlesMap
                 (fst (afterOptimizeChunks ''/'' (\<lambda>c. [\<lparr>resource = Some ''/src/a.js''\<rparr>])
                        demoPlugin [\<lparr>name = Some [], chunkId = None, renderedHash = None\<rparr>]))
                 = Some fm
               \<and> map_of fm ''/src/a.js'' = Some bs \<and> ''chunk-undefined'' \<in> set bs)"
proof -
  let ?c = "\<lparr>name = Some [], chunkId = None, renderedHash = None\<rparr>"
  let ?g = "\<lambda>c::chunk. [\<lparr>resource = Some ''/src/a.js''\<rparr>]"
  obtain this' where run:
    "afterOptimizeChunks ''/'' ?g demoPlugin [?c] = (this', None)"
    by (simp add: afterOptimizeChunks_def chunkName_def addBundle_def js_get_def
          objectPrototypeKeys_def isNodeModule_def)
  note inst = chunk_identifier_never_empty[of "?c" "''/''" "?g" "[]" "[]" "[?c]"
               "\<lparr>resource = Some ''/src/a.js''\<rparr>" "''/src/a.js''" demoPlugin this']
  have pre: "truthy (name ?c) = None \<and> chunkId ?c = None \<and> renderedHash ?c = None" by simp
  have pre2: "?c \<in> set [?c] \<and> \<lparr>resource = Some ''/src/a.js''\<rparr> \<in> set (?g ?c)
        \<and> truthy (resource \<lparr>resource = Some ''/src/a.js''\<rparr>) = Some ''/src/a.js''
        \<and> \<not> isNodeModule ''/'' ''/src/a.js''"
    by (simp add: isNodeModule_def)
  from inst pre have "chunkName ?c = ''chunk-undefined''" by blast
  moreover from inst pre pre2 run
  have "\<exists>fm bs. fileToBundlesMap this' = Some fm \<and> map_of fm ''/src/a.js'' = Some bs
                     \<and> ''chunk-undefined'' \<in> set bs" by blast
  ultimately show ?thesis using run by simp
qed

section \<open>The rule aggregator joins rules with bundle membership\<close>



lemma demo_aggregated:
  "getBundleToStylexRules (processStylexRules demoEnv) demoBuilt
     = Inr (Some [(''7'', ''.a{}.b{}''), (''main'', ''.a{}'')])"
  by (simp add: getBundleToStylexRules_def collectBundleToRules_def demoBuilt_def demoEnv_def
        demoPlugin_def newStylexPlugin_def ownKeys_def ownEntries_def isArrayIndex_def
        isDigit_def decimalValue_def pushRules_def js_get_def objectPrototypeKeys_def)




section \<open>Two files of one bundle\<close>



section \<open>The transformation step leaves unrelated files alone\<close>




lemma recordStylex_rules:
  "stylexRules (fst (recordStylex this resourcePath result)) = stylexRules this
   \<or> (\<exists>stylex. stylexRules (fst (recordStylex this resourcePath result))
                  = js_set (stylexRules this) resourcePath stylex)"
  by (cases "metadata_stylex result") (auto simp: recordStylex_def)

lemma transformCode_cases:
  obtains (same) "fst (transformCode env this inputCode resourcePath) = this"
    | (recorded) result where
        "list_ex (\<lambda>importName. str_includes inputCode importName) (stylexImports this)"
        "fst (transformCode env this inputCode resourcePath)
           = fst (recordStylex this resourcePath result)"
proof (cases "list_ex (\<lambda>importName. str_includes inputCode importName) (stylexImports this)")
  case False
  then show ?thesis by (intro same) (simp add: transformCode_def)
next
  case True
  show ?thesis
  proof (cases "if babelrc (babelConfig this) then readFile env resourcePath else Inr inputCode")
    case (Inl e)
    with True show ?thesis by (intro same) (simp add: transformCode_def)
  next
    case (Inr originalSource)
    show ?thesis
    proof (cases "transformAsync env originalSource (transformOptions env this resourcePath)")
      case (Inl e)
      with True Inr show ?thesis by (intro same) (simp add: transformCode_def)
    next
      case r: (Inr res)
      show ?thesis
      proof (cases res)
        case None
        with True Inr r show ?thesis by (intro same) (simp add: transformCode_def)
      next
        case (Some result)
        obtain this' logged where rs: "recordStylex this resourcePath result = (this', logged)"
          by (cases "recordStylex this resourcePath result")
        with True Inr r Some
        have "fst (transformCode env this inputCode resourcePath) = this'"
          by (simp add: transformCode_def)
        with rs True show ?thesis by (intro recorded[of result]) simp_all
      qed
    qed
  qed
qed

lemma transformCode_rules:
  "stylexRules (fst (transformCode env this inputCode resourcePath)) = stylexRules this
   \<or> (\<exists>stylex. stylexRules (fst (transformCode env this inputCode resourcePath))
                  = js_set (stylexRules this) resourcePath stylex)"
proof (cases rule: transformCode_cases[of env this inputCode resourcePath])
  case same
  then show ?thesis by simp
next
  case (recorded result)
  with recordStylex_rules[of this resourcePath result] show ?thesis by simp
qed


lemma transformCode_other_paths:
  assumes "f \<noteq> resourcePath"
  shows "map_of (stylexRules (fst (transformCode env this inputCode resourcePath))) f
           = map_of (stylexRules this) f"
  using transformCode_rules[of env this inputCode resourcePath] assms
  by (auto simp: map_of_js_set)






section \<open>The file-to-rules map across compilations\<close>

text \<open>
  C4, as the code has it. A plugin is constructed with an empty file-to-rules map. No
  hook changes the map: not the start of a compilation, not the loader hook, not
  \<^verbatim>\<open>finishModules\<close>, \<^verbatim>\<open>afterOptimizeChunks\<close> or \<^verbatim>\<open>processAssets\<close>. A call of \<^verbatim>\<open>transformCode\<close>
  changes at most the entry of the path it was called with. So the map is not reset when
  a new compilation starts on the same instance.
\<close>

theorem rules_map_changed_only_by_transform:
  "stylexRules (newStylexPlugin isDev resolution opts) = []
   \<and> stylexRules (plugin (step env w (Make c))) = stylexRules (plugin w)
   \<and> ((\<forall>inputCode path. ev \<noteq> TransformCode inputCode path)
        \<longrightarrow> stylexRules (plugin (step env w ev)) = stylexRules (plugin w))
   \<and> (f \<noteq> path
        \<longrightarrow> map_of (stylexRules (plugin (step env w (TransformCode inputCode path)))) f
              = map_of (stylexRules (plugin w)) f)"
proof -
  have "stylexRules (plugin (step env w ev)) = stylexRules (plugin w)"
    if "\<forall>inputCode path. ev \<noteq> TransformCode inputCode path"
    using that by (cases ev) (simp_all add: afterOptimizeChunks_def split: prod.splits)
  then show ?thesis
    by (simp add: newStylexPlugin_def transformCode_other_paths)
qed

text \<open>
  The rules recorded for \<^verbatim>\<open>/src/a.js\<close> in a first compilation are still in the map when a
  second compilation has started, has tracked its chunks and has emitted its assets.
\<close>

theorem rules_map_changed_only_by_transform_witness:
  "stylexRules (plugin (run demoEnv \<lparr>plugin = demoPlugin, current = demoCompilation\<rparr>
                          [Make demoCompilation, TransformCode ''import stylex'' ''/src/a.js'']))
     = [(''/src/a.js'', [''.x/src/a.js''])]
   \<and> stylexRules (plugin (step demoEnv
        (run demoEnv \<lparr>plugin = demoPlugin, current = demoCompilation\<rparr>
           [Make demoCompilation, TransformCode ''import stylex'' ''/src/a.js''])
        (Make demoCompilation)))
     = [(''/src/a.js'', [''.x/src/a.js''])]"
proof -
  let ?w = "run demoEnv \<lparr>plugin = demoPlugin, current = demoCompilation\<rparr>
              [Make demoCompilation, TransformCode ''import stylex'' ''/src/a.js'']"
  have w: "stylexRules (plugin ?w) = [(''/src/a.js'', [''.x/src/a.js''])]"
    by (simp add: run_def transformCode_def recordStylex_def transformOptions_def demoEnv_def
          demoPlugin_def newStylexPlugin_def)
  from rules_map_changed_only_by_transform[of False "''commonJS''" _ demoEnv ?w demoCompilation
         "Make demoCompilation"]
  have "stylexRules (plugin (step demoEnv ?w (Make demoCompilation))) = stylexRules (plugin ?w)"
    by blast
  with w show ?thesis by simp
qed

text \<open>
  C4 as stated fails: after a compilation recorded rules for \<^verbatim>\<open>/src/a.js\<close>, the start of
  the next compilation on the same plugin instance finds these rules in the map.
\<close>

theorem rules_survive_new_compilation:
  "map_of (stylexRules (plugin (run demoEnv \<lparr>plugin = demoPlugin, current = demoCompilation\<rparr>
                                  [Make demoCompilation,
                                   TransformCode ''import stylex'' ''/src/a.js'',
                                   FinishModules [\<lparr>resource = Some ''/src/a.js''\<rparr>],
                                   AfterOptimizeChunks demoChunks,
                                   ProcessAssets,
                                   Make demoCompilation])))
     ''/src/a.js'' = Some [''.x/src/a.js'']"
  by (simp add: run_def transformCode_def recordStylex_def transformOptions_def demoEnv_def
        demoPlugin_def newStylexPlugin_def afterOptimizeChunks_def split: prod.splits)

section \<open>Exceptions of the emission pass\<close>










section \<open>The name of the emitted asset\<close>

lemma aggregator_ignores_filename:
  "getBundleToStylexRules P (this\<lparr>filename := t\<rparr>) = getBundleToStylexRules P this"
proof -
  have "collectBundleToRules (this\<lparr>filename := t\<rparr>) = collectBundleToRules this"
    by (simp add: collectBundleToRules_def split: option.splits)
  then show ?thesis
    by (simp add: getBundleToStylexRules_def split: sum.splits)
qed

text \<open>
  The whole pass, for a bundler whose asset registry appends, whose path interpolation is
  a function of template and path data, and whose hash of every payload can be computed.
\<close>

lemma emitLoop_appends:
  assumes registry: "\<forall>c p s i. emitAsset env c p s i = (c\<lparr>assets := assets c @ [(p, s, i)]\<rparr>, None)"
      and interp: "\<forall>c t d. getPathWithInfo env c t d = Inr (resolve t d)"
      and hashes: "\<forall>e \<in> set entries. getContentHash env (outputOptions c) (snd e) = Inr (h (snd e))"
  shows "emitLoop env c entries
           = (c\<lparr>assets := assets c
                   @ map (\<lambda>(b, css).
                            (fst (resolve (b @ ''.stylex.css'') (pathDataOf env b (h css))), css,
                             snd (resolve (b @ ''.stylex.css'') (pathDataOf env b (h css)))))
                       entries\<rparr>, None)"
  using hashes
proof (induction entries arbitrary: c)
  case Nil
  then show ?case by simp
next
  case (Cons e entries)
  obtain b css where e: "e = (b, css)" by (cases e)
  let ?p = "resolve (b @ ''.stylex.css'') (pathDataOf env b (h css))"
  let ?c1 = "c\<lparr>assets := assets c @ [(fst ?p, css, snd ?p)]\<rparr>"
  from Cons.prems e have "getContentHash env (outputOptions c) css = Inr (h css)" by simp
  with registry interp have one: "emitBundle env c e = (?c1, None)"
    by (simp add: emitBundle_def hashedPathOf_def e pathDataOf_def Let_def split: prod.splits)
  have "\<forall>e \<in> set entries. getContentHash env (outputOptions ?c1) (snd e) = Inr (h (snd e))"
    using Cons.prems by simp
  from Cons.IH[OF this] one e show ?case by simp
qed

lemma emitted_assets_of_pass:
  assumes "getBundleToStylexRules (processStylexRules env) this = Inr (Some out)"
      and "\<forall>c p s i. emitAsset env c p s i = (c\<lparr>assets := assets c @ [(p, s, i)]\<rparr>, None)"
      and "\<forall>c t d. getPathWithInfo env c t d = Inr (resolve t d)"
      and "\<forall>e \<in> set out. getContentHash env (outputOptions c) (snd e) = Inr (h (snd e))"
  shows "processAssets env this c
           = c\<lparr>assets := assets c
                  @ map (\<lambda>(b, css).
                           (fst (resolve (b @ ''.stylex.css'') (pathDataOf env b (h css))), css,
                            snd (resolve (b @ ''.stylex.css'') (pathDataOf env b (h css)))))
                      (ownEntries out)\<rparr>"
proof -
  from assms(4) have "\<forall>e \<in> set (ownEntries out).
      getContentHash env (outputOptions c) (snd e) = Inr (h (snd e))"
    by (simp add: set_ownEntries)
  from emitLoop_appends[OF assms(2,3) this] assms(1) show ?thesis
    by (simp add: processAssets_def)
qed

text \<open>
  C5, as the code has it. The \<^verbatim>\<open>filename\<close> field that the constructor stores is read
  nowhere: the emission pass is the same whatever it holds. For a bundle, the template
  handed to the path interpolation is the string \<^verbatim>\<open>{bundle}.stylex.css\<close> itself, with a
  path data whose content hash is the computed one and whose pseudo-chunk has that
  string as id, its name part as name and the content hash as hash; the asset is
  registered under the path the interpolation returns, with the bundle's text as source.
  And the pass does this for every bundle of the aggregator's object: with an asset
  registry that appends, a path interpolation that is a function of template and path
  data and content hashes that can be computed, the handler returns the compilation with
  one new asset per bundle, in enumeration order of the bundles, each under the
  interpolation of its \<^verbatim>\<open>{bundle}.stylex.css\<close>.
\<close>

theorem emitted_name_comes_from_bundle:
  "processAssets env (this\<lparr>filename := t\<rparr>) c = processAssets env this c
   \<and> hashedPathOf env c bundle css
       = (case getContentHash env (outputOptions c) css of
            Inl e \<Rightarrow> Inl e
          | Inr h \<Rightarrow>
              getPathWithInfo env c (bundle @ ''.stylex.css'')
                \<lparr>pd_filename = bundle @ ''.stylex.css'', pd_contentHash = h,
                 pd_chunk = \<lparr>pc_id = bundle @ ''.stylex.css'',
                             pc_name = path_parse_name env (bundle @ ''.stylex.css''),
                             pc_hash = h\<rparr>\<rparr>)
   \<and> (hashedPathOf env c bundle css = Inr (hashedPath, info)
      \<longrightarrow> emitBundle env c (bundle, css) = emitAsset env c hashedPath css info)
   \<and> (getBundleToStylexRules (processStylexRules env) this = Inr (Some out)
        \<and> (\<forall>c p s i. emitAsset env c p s i = (c\<lparr>assets := assets c @ [(p, s, i)]\<rparr>, None))
        \<and> (\<forall>c t d. getPathWithInfo env c t d = Inr (resolve t d))
        \<and> (\<forall>e \<in> set out. getContentHash env (outputOptions c) (snd e) = Inr (hashOf (snd e)))
      \<longrightarrow> processAssets env this c
            = c\<lparr>assets := assets c
                   @ map (\<lambda>(b, css).
                            (fst (resolve (b @ ''.stylex.css'')
                                    \<lparr>pd_filename = b @ ''.stylex.css'',
                                     pd_contentHash = hashOf css,
                                     pd_chunk = \<lparr>pc_id = b @ ''.stylex.css'',
                                                 pc_name = path_parse_name env (b @ ''.stylex.css''),
                                                 pc_hash = hashOf css\<rparr>\<rparr>),
                             css,
                             snd (resolve (b @ ''.stylex.css'')
                                    \<lparr>pd_filename = b @ ''.stylex.css'',
                                     pd_contentHash = hashOf css,
                                     pd_chunk = \<lparr>pc_id = b @ ''.stylex.css'',
                                                 pc_name = path_parse_name env (b @ ''.stylex.css''),
                                                 pc_hash = hashOf css\<rparr>\<rparr>)))
                       (ownEntries out)\<rparr>)"
proof -
  have one: "processAssets env (this\<lparr>filename := t\<rparr>) c = processAssets env this c"
    by (simp add: processAssets_def aggregator_ignores_filename)
  have two: "hashedPathOf env c bundle css
       = (case getContentHash env (outputOptions c) css of
            Inl e \<Rightarrow> Inl e
          | Inr h \<Rightarrow>
              getPathWithInfo env c (bundle @ ''.stylex.css'')
                \<lparr>pd_filename = bundle @ ''.stylex.css'', pd_contentHash = h,
                 pd_chunk = \<lparr>pc_id = bundle @ ''.stylex.css'',
                             pc_name = path_parse_name env (bundle @ ''.stylex.css''),
                             pc_hash = h\<rparr>\<rparr>)"
    by (simp add: hashedPathOf_def pathDataOf_def Let_def split: sum.splits)
  have three: "hashedPathOf env c bundle css = Inr (hashedPath, info)
      \<longrightarrow> emitBundle env c (bundle, css) = emitAsset env c hashedPath css info"
    by (simp add: emitBundle_def)
  have four: "getBundleToStylexRules (processStylexRules env) this = Inr (Some out)
        \<and> (\<forall>c p s i. emitAsset env c p s i = (c\<lparr>assets := assets c @ [(p, s, i)]\<rparr>, None))
        \<and> (\<forall>c t d. getPathWithInfo env c t d = Inr (resolve t d))
        \<and> (\<forall>e \<in> set out. getContentHash env (outputOptions c) (snd e) = Inr (hashOf (snd e)))
      \<longrightarrow> processAssets env this c
            = c\<lparr>assets := assets c
                   @ map (\<lambda>(b, css).
                            (fst (resolve (b @ ''.stylex.css'')
                                    \<lparr>pd_filename = b @ ''.stylex.css'',
                                     pd_contentHash = hashOf css,
                                     pd_chunk = \<lparr>pc_id = b @ ''.stylex.css'',
                                                 pc_name = path_parse_name env (b @ ''.stylex.css''),
                                                 pc_hash = hashOf css\<rparr>\<rparr>),
                             css,
                             snd (resolve (b @ ''.stylex.css'')
                                    \<lparr>pd_filename = b @ ''.stylex.css'',
                                     pd_contentHash = hashOf css,
                                     pd_chunk = \<lparr>pc_id = b @ ''.stylex.css'',
                                                 pc_name = path_parse_name env (b @ ''.stylex.css''),
                                                 pc_hash = hashOf css\<rparr>\<rparr>)))
                       (ownEntries out)\<rparr>"
  proof (rule impI, elim conjE)
    assume h: "getBundleToStylexRules (processStylexRules env) this = Inr (Some out)"
      "\<forall>c p s i. emitAsset env c p s i = (c\<lparr>assets := assets c @ [(p, s, i)]\<rparr>, None)"
      "\<forall>c t d. getPathWithInfo env c t d = Inr (resolve t d)"
      "\<forall>e \<in> set out. getContentHash env (outputOptions c) (snd e) = Inr (hashOf (snd e))"
    from emitted_assets_of_pass[where resolve = resolve and h = hashOf, OF h]
    show "processAssets env this c
            = c\<lparr>assets := assets c
                   @ map (\<lambda>(b, css).
                            (fst (resolve (b @ ''.stylex.css'')
                                    \<lparr>pd_filename = b @ ''.stylex.css'',
                                     pd_contentHash = hashOf css,
                                     pd_chunk = \<lparr>pc_id = b @ ''.stylex.css'',
                                                 pc_name = path_parse_name env (b @ ''.stylex.css''),
                                                 pc_hash = hashOf css\<rparr>\<rparr>),
                             css,
                             snd (resolve (b @ ''.stylex.css'')
                                    \<lparr>pd_filename = b @ ''.stylex.css'',
                                     pd_contentHash = hashOf css,
                                     pd_chunk = \<lparr>pc_id = b @ ''.stylex.css'',
                                                 pc_name = path_parse_name env (b @ ''.stylex.css''),
                                                 pc_hash = hashOf css\<rparr>\<rparr>)))
                       (ownEntries out)\<rparr>"
      by (simp add: pathDataOf_def Let_def)
  qed
  show ?thesis by (rule conjI[OF one conjI[OF two conjI[OF three four]]])
qed

lemma demo_hash_main:
  "getContentHash demoEnv (outputOptions demoCompilation) ''.a{}'' = Inr ''391''"
proof -
  have "toString 391 = ''391''" by (simp add: toString.simps)
  then show ?thesis by (simp add: getContentHash_def demoEnv_def demoCompilation_def)
qed

lemma demo_hash_any:
  "getContentHash demoEnv (outputOptions demoCompilation) css
     = Inr (take 20 (toString (foldl (\<lambda>a c. a + of_char c) 0 css)))"
  by (simp add: getContentHash_def demoEnv_def demoCompilation_def)

text \<open>
  In the small build the pass registers \<^verbatim>\<open>7.stylex.css\<close> and \<^verbatim>\<open>main.stylex.css\<close>, in this
  order, also when the plugin was configured with another file name.
\<close>

theorem emitted_name_comes_from_bundle_witness:
  "processAssets demoEnv (demoBuilt\<lparr>filename := Some ''styles.css''\<rparr>) demoCompilation
     = demoCompilation\<lparr>assets := [(''7.stylex.css'', ''.a{}.b{}'', ''info''),
                                   (''main.stylex.css'', ''.a{}'', ''info'')]\<rparr>
   \<and> hashedPathOf demoEnv demoCompilation ''main'' ''.a{}'' = Inr (''main.stylex.css'', ''info'')
   \<and> emitBundle demoEnv demoCompilation (''main'', ''.a{}'')
       = (demoCompilation\<lparr>assets := [(''main.stylex.css'', ''.a{}'', ''info'')]\<rparr>, None)"
proof -
  let ?h = "\<lambda>css. take 20 (toString (foldl (\<lambda>a c. a + of_char c) 0 css))"
  let ?r = "\<lambda>(t::string) (d::pathData). (t, ''info'')"
  note inst = emitted_name_comes_from_bundle[of demoEnv "Some ''styles.css''" demoBuilt
                demoCompilation "''main''" "''.a{}''" "''main.stylex.css''" "''info''"
                "[(''7'', ''.a{}.b{}''), (''main'', ''.a{}'')]" ?r ?h]
  have registry: "\<forall>c p s i. emitAsset demoEnv c p s i
                    = (c\<lparr>assets := assets c @ [(p, s, i)]\<rparr>, None)"
    and interp: "\<forall>c t d. getPathWithInfo demoEnv c t d = Inr (?r t d)"
    by (simp_all add: demoEnv_def)
  have hashes: "\<forall>e \<in> set [(''7'', ''.a{}.b{}''), (''main'', ''.a{}'')].
                  getContentHash demoEnv (outputOptions demoCompilation) (snd e) = Inr (?h (snd e))"
    by (simp add: demo_hash_any)
  have entries: "ownEntries [(''7'', ''.a{}.b{}''), (''main'', ''.a{}'')]
                   = [(''7'', ''.a{}.b{}''), (''main'', ''.a{}'')]"
    by (simp add: ownEntries_def isArrayIndex_def isDigit_def decimalValue_def)
  from inst demo_aggregated registry interp hashes
  have "processAssets demoEnv demoBuilt demoCompilation
          = demoCompilation\<lparr>assets := assets demoCompilation
              @ map (\<lambda>(b, css). (b @ ''.stylex.css'', css, ''info''))
                  (ownEntries [(''7'', ''.a{}.b{}''), (''main'', ''.a{}'')])\<rparr>"
    by (simp add: split_def)
  then have pass: "processAssets demoEnv demoBuilt demoCompilation
          = demoCompilation\<lparr>assets := [(''7.stylex.css'', ''.a{}.b{}'', ''info''),
                                        (''main.stylex.css'', ''.a{}'', ''info'')]\<rparr>"
    unfolding entries by (simp add: demoCompilation_def)
  from inst demo_hash_main
  have path: "hashedPathOf demoEnv demoCompilation ''main'' ''.a{}''
                = Inr (''main.stylex.css'', ''info'')"
    by (simp add: demoEnv_def)
  with inst
  have "emitBundle demoEnv demoCompilation (''main'', ''.a{}'')
          = emitAsset demoEnv demoCompilation ''main.stylex.css'' ''.a{}'' ''info''"
    by blast
  moreover have "emitAsset demoEnv demoCompilation ''main.stylex.css'' ''.a{}'' ''info''
      = (demoCompilation\<lparr>assets := [(''main.stylex.css'', ''.a{}'', ''info'')]\<rparr>, None)"
    by (simp add: demoEnv_def demoCompilation_def)
  moreover from inst have "processAssets demoEnv (demoBuilt\<lparr>filename := Some ''styles.css''\<rparr>)
                             demoCompilation
                           = processAssets demoEnv demoBuilt demoCompilation"
    by blast
  ultimately show ?thesis using pass path by simp
qed

text \<open>
  C5 as stated fails: a plugin configured with the file name \<^verbatim>\<open>styles.css\<close>, a template
  without placeholders that every substitution leaves as it is, emits its assets as
  \<^verbatim>\<open>7.stylex.css\<close> and \<^verbatim>\<open>main.stylex.css\<close>.
\<close>

theorem configured_filename_is_not_used:
  "filename (demoBuilt\<lparr>filename := Some ''styles.css''\<rparr>) = Some ''styles.css''
   \<and> map fst (assets (processAssets demoEnv (demoBuilt\<lparr>filename := Some ''styles.css''\<rparr>)
                         demoCompilation))
       = [''7.stylex.css'', ''main.stylex.css'']
   \<and> ''styles.css''
       \<notin> set (map fst (assets (processAssets demoEnv
                                   (demoBuilt\<lparr>filename := Some ''styles.css''\<rparr>)
                                   demoCompilation)))"
proof -
  have "processAssets demoEnv (demoBuilt\<lparr>filename := Some ''styles.css''\<rparr>) demoCompilation
          = demoCompilation\<lparr>assets := [(''7.stylex.css'', ''.a{}.b{}'', ''info''),
                                        (''main.stylex.css'', ''.a{}'', ''info'')]\<rparr>"
    unfolding processAssets_def aggregator_ignores_filename demo_aggregated
    by (simp add: ownEntries_def isArrayIndex_def isDigit_def decimalValue_def emitBundle_def
          hashedPathOf_def getContentHash_def pathDataOf_def Let_def demoEnv_def
          demoCompilation_def)
  then show ?thesis by simp
qed

section \<open>The content hash is a function of payload and hash configuration\<close>

text \<open>
  C9. Two output configurations that agree on hash function, salt, digest encoding and
  digest length give, for the same payload and the same hash implementation, the same
  result of \<^verbatim>\<open>getContentHash\<close> (the same hash, or the same exception), whatever else the
  configurations hold. Hence, for two compilations with such configurations and one
  bundle, the same template and path data are handed to the path interpolation, and the
  resolved path is the same wherever the interpolation of the two compilations agrees on
  them.
\<close>

lemma getContentHash_cong:
  assumes "hashFunction a = hashFunction b" and "hashSalt a = hashSalt b"
      and "hashDigest a = hashDigest b" and "hashDigestLength a = hashDigestLength b"
  shows "getContentHash env a payload = getContentHash env b payload"
  unfolding getContentHash_def assms by (rule refl)

theorem content_hash_is_deterministic:
  assumes "hashFunction o1 = hashFunction o2" and "hashSalt o1 = hashSalt o2"
      and "hashDigest o1 = hashDigest o2" and "hashDigestLength o1 = hashDigestLength o2"
  shows "getContentHash env o1 payload = getContentHash env o2 payload
         \<and> (hashFunction (outputOptions c1) = hashFunction (outputOptions c2)
              \<and> hashSalt (outputOptions c1) = hashSalt (outputOptions c2)
              \<and> hashDigest (outputOptions c1) = hashDigest (outputOptions c2)
              \<and> hashDigestLength (outputOptions c1) = hashDigestLength (outputOptions c2)
              \<and> (\<forall>t d. getPathWithInfo env c1 t d = getPathWithInfo env c2 t d)
            \<longrightarrow> hashedPathOf env c1 bundle payload = hashedPathOf env c2 bundle payload)"
proof (rule conjI)
  show "getContentHash env o1 payload = getContentHash env o2 payload"
    using assms by (rule getContentHash_cong)
next
  show "hashFunction (outputOptions c1) = hashFunction (outputOptions c2)
              \<and> hashSalt (outputOptions c1) = hashSalt (outputOptions c2)
              \<and> hashDigest (outputOptions c1) = hashDigest (outputOptions c2)
              \<and> hashDigestLength (outputOptions c1) = hashDigestLength (outputOptions c2)
              \<and> (\<forall>t d. getPathWithInfo env c1 t d = getPathWithInfo env c2 t d)
            \<longrightarrow> hashedPathOf env c1 bundle payload = hashedPathOf env c2 bundle payload"
  proof (rule impI, elim conjE)
    assume cfg: "hashFunction (outputOptions c1) = hashFunction (outputOptions c2)"
      "hashSalt (outputOptions c1) = hashSalt (outputOptions c2)"
      "hashDigest (outputOptions c1) = hashDigest (outputOptions c2)"
      "hashDigestLength (outputOptions c1) = hashDigestLength (outputOptions c2)"
      and interp: "\<forall>t d. getPathWithInfo env c1 t d = getPathWithInfo env c2 t d"
    have "getContentHash env (outputOptions c1) payload
            = getContentHash env (outputOptions c2) payload"
      using cfg by (rule getContentHash_cong)
    with interp show "hashedPathOf env c1 bundle payload = hashedPathOf env c2 bundle payload"
      unfolding hashedPathOf_def by (simp split: sum.splits)
  qed
qed

text \<open>
  A compilation that already holds an asset and an error, and a configuration with more
  settings than the four, give the hash and the path of the fresh compilation.
\<close>

theorem content_hash_is_deterministic_witness:
  "getContentHash demoEnv
      \<lparr>hashDigest = Some ''hex'', hashDigestLength = Some 20, hashFunction = ''md4'',
       hashSalt = None, \<dots> = ''production''\<rparr> ''.a{}''
     = Inr ''391''
   \<and> hashedPathOf demoEnv
        (demoCompilation\<lparr>assets := [(''other.css'', ''x'', ''info'')], errors := [TypeError]\<rparr>)
        ''main'' ''.a{}''
     = Inr (''main.stylex.css'', ''info'')"
proof -
  let ?o1 = "outputOptions demoCompilation"
  let ?o2 = "\<lparr>hashDigest = Some ''hex'', hashDigestLength = Some 20, hashFunction = ''md4'',
              hashSalt = None, \<dots> = ''production''\<rparr>"
  let ?c2 = "demoCompilation\<lparr>assets := [(''other.css'', ''x'', ''info'')], errors := [TypeError]\<rparr>"
  have "toString 391 = ''391''" by (simp add: toString.simps)
  then have one: "getContentHash demoEnv ?o1 ''.a{}'' = Inr ''391''"
    by (simp add: getContentHash_def demoEnv_def demoCompilation_def)
  then have path: "hashedPathOf demoEnv demoCompilation ''main'' ''.a{}''
                     = Inr (''main.stylex.css'', ''info'')"
    by (simp add: hashedPathOf_def pathDataOf_def Let_def) (simp add: demoEnv_def)
  note inst = content_hash_is_deterministic[of ?o1 ?o2 demoEnv "''.a{}''" demoCompilation ?c2
                "''main''"]
  have cfg: "hashFunction ?o1 = hashFunction ?o2" "hashSalt ?o1 = hashSalt ?o2"
    "hashDigest ?o1 = hashDigest ?o2" "hashDigestLength ?o1 = hashDigestLength ?o2"
    by (simp_all add: demoCompilation_def)
  have pre: "hashFunction (outputOptions demoCompilation) = hashFunction (outputOptions ?c2)
              \<and> hashSalt (outputOptions demoCompilation) = hashSalt (outputOptions ?c2)
              \<and> hashDigest (outputOptions demoCompilation) = hashDigest (outputOptions ?c2)
              \<and> hashDigestLength (outputOptions demoCompilation)
                  = hashDigestLength (outputOptions ?c2)
              \<and> (\<forall>t d. getPathWithInfo demoEnv demoCompilation t d
                          = getPathWithInfo demoEnv ?c2 t d)"
    by (simp add: demoCompilation_def demoEnv_def)
  from inst[OF cfg] pre
  have "hashedPathOf demoEnv demoCompilation ''main'' ''.a{}''
          = hashedPathOf demoEnv ?c2 ''main'' ''.a{}''"
    by blast
  moreover from inst[OF cfg]
  have "getContentHash demoEnv ?o1 ''.a{}'' = getContentHash demoEnv ?o2 ''.a{}''"
    by blast
  ultimately show ?thesis using one path by simp
qed

section \<open>One build from start to end\<close>

text \<open>
  A file that imports the styling API and one that does not, both in chunk \<open>main\<close>: the
  build emits one asset, \<^verbatim>\<open>main.stylex.css\<close>, with the processed rules of the first file,
  and records no error.
\<close>

lemma one_build:
  "current (run demoEnv \<lparr>plugin = demoPlugin, current = demoCompilation\<rparr>
             [Make demoCompilation,
              TransformCode ''import stylex from stylex'' ''/src/a.js'',
              TransformCode ''export const n = 1;'' ''/src/b.js'',
              FinishModules [\<lparr>resource = Some ''/src/a.js''\<rparr>, \<lparr>resource = Some ''/src/b.js''\<rparr>],
              AfterOptimizeChunks [\<lparr>name = Some ''one'', chunkId = None, renderedHash = None\<rparr>],
              ProcessAssets])
     = demoCompilation\<lparr>assets := [(''one.stylex.css'', ''.x/src/a.js'', ''info'')]\<rparr>"
  by (simp add: run_def transformCode_def recordStylex_def transformOptions_def demoEnv_def
        demoPlugin_def newStylexPlugin_def afterOptimizeChunks_def demoGraph_def chunkName_def
        addBundle_def js_get_def objectPrototypeKeys_def isNodeModule_def
        processAssets_def getBundleToStylexRules_def collectBundleToRules_def ownKeys_def
        ownEntries_def isArrayIndex_def isDigit_def pushRules_def emitBundle_def hashedPathOf_def
        getContentHash_def pathDataOf_def Let_def demoCompilation_def)

end
